theory Spec2Isabelle
  imports Main
begin

section \<open>Strings\<close>

text \<open>
  A Python \<open>str\<close> is a sequence of Unicode code points, so a character is modelled
  as its code point (a natural number) and a string as a list of them. \<open>py\<close> turns
  a literal into such a list.
\<close>

type_synonym codepoint = nat
type_synonym str = "codepoint list"

abbreviation py :: "string \<Rightarrow> str" where
  "py s \<equiv> map of_char s"

abbreviation PIPE :: codepoint where "PIPE \<equiv> 0x7C"
abbreviation DASH :: codepoint where "DASH \<equiv> 0x2D"
abbreviation SPACE :: codepoint where "SPACE \<equiv> 0x20"
abbreviation NEWLINE :: codepoint where "NEWLINE \<equiv> 0x0A"

text \<open>
  The characters that \<open>str.strip()\<close>, \<open>str.rstrip()\<close> without argument remove:
  the code points for which \<open>str.isspace\<close> holds.
\<close>

definition is_space :: "codepoint \<Rightarrow> bool" where
  "is_space c \<longleftrightarrow>
     (0x09 \<le> c \<and> c \<le> 0x0D) \<or> (0x1C \<le> c \<and> c \<le> 0x20) \<or> c = 0x85 \<or> c = 0xA0 \<or>
     c = 0x1680 \<or> (0x2000 \<le> c \<and> c \<le> 0x200A) \<or> c = 0x2028 \<or> c = 0x2029 \<or>
     c = 0x202F \<or> c = 0x205F \<or> c = 0x3000"

definition lstrip :: "str \<Rightarrow> str" where
  "lstrip s = dropWhile is_space s"

definition rstrip :: "str \<Rightarrow> str" where
  "rstrip s = rev (dropWhile is_space (rev s))"

text \<open>\<open>s.strip()\<close>: whitespace removed at both ends.\<close>

definition strip :: "str \<Rightarrow> str" where
  "strip s = lstrip (rstrip s)"

text \<open>\<open>s.strip(c)\<close> for a one-character argument: every leading and trailing \<open>c\<close> removed.\<close>

definition strip_chars :: "codepoint \<Rightarrow> str \<Rightarrow> str" where
  "strip_chars c s = rev (dropWhile (\<lambda>x. x = c) (rev (dropWhile (\<lambda>x. x = c) s)))"

text \<open>\<open>s.split(sep)\<close> for a one-character separator; the result is never empty.\<close>

fun str_split :: "codepoint \<Rightarrow> str \<Rightarrow> str list" where
  "str_split sep [] = [[]]"
| "str_split sep (c # cs) =
     (if c = sep then [] # str_split sep cs
      else (case str_split sep cs of
              [] \<Rightarrow> [[c]]
            | w # ws \<Rightarrow> (c # w) # ws))"

text \<open>\<open>s.replace(c, '')\<close>: every occurrence of \<open>c\<close> deleted.\<close>

definition replace_del :: "codepoint \<Rightarrow> str \<Rightarrow> str" where
  "replace_del c s = filter (\<lambda>x. x \<noteq> c) s"

definition startswith :: "str \<Rightarrow> str \<Rightarrow> bool" where
  "startswith s p \<longleftrightarrow> take (length p) s = p"

section \<open>Errors and the result table\<close>

text \<open>
  \<open>ValueError\<close> carries its message; the parser raises it with two different messages.
  \<open>IndexError\<close> is what a list subscript out of range raises. \<open>ShapeError\<close> stands
  for the rejection by the data frame constructor of rows that do not fit the columns.
\<close>

datatype error = ValueError string | IndexError | ShapeError

definition MalformedTableError :: error where
  "MalformedTableError = ValueError ''Could not find a valid markdown table in the provided text.''"

definition EmptyTableError :: error where
  "EmptyTableError = ValueError ''No valid data rows were found in the table.''"

record DataFrame =
  columns :: "str list"
  rows :: "str list list"

text \<open>
  \<open>pd.DataFrame(data, columns=...)\<close>. The constructor belongs to a library; the model is
  conservative and counts every row whose length differs from the number of columns as
  a rejection.
\<close>

definition pd_DataFrame :: "str list list \<Rightarrow> str list \<Rightarrow> error + DataFrame" where
  "pd_DataFrame data cols =
     (if list_all (\<lambda>r. length r = length cols) data
      then Inr \<lparr>columns = cols, rows = data\<rparr>
      else Inl ShapeError)"

text \<open>\<open>xs[i]\<close> for a non-negative literal index.\<close>

definition index :: "'a list \<Rightarrow> nat \<Rightarrow> error + 'a" where
  "index xs i = (if i < length xs then Inr (xs ! i) else Inl IndexError)"

section \<open>The parser\<close>

text \<open>The \<open>while\<close> loop of \<open>split_row\<close> that appends \<open>'N/A'\<close> cells.\<close>

function pad_cells :: "str list \<Rightarrow> nat \<Rightarrow> str list" where
  "pad_cells cells expected_cols =
     (if length cells < expected_cols
      then pad_cells (cells @ [py ''N/A'']) expected_cols
      else cells)"
  by pat_completeness auto
termination
  by (relation "measure (\<lambda>(cells, expected_cols). expected_cols - length cells)") auto

declare pad_cells.simps [simp del]

text \<open>The cells of a row before padding and truncation.\<close>

definition row_cells :: "str \<Rightarrow> str list" where
  "row_cells row = map strip (str_split PIPE (strip_chars PIPE row))"

definition split_row :: "str \<Rightarrow> nat \<Rightarrow> str list" where
  "split_row row expected_cols = take expected_cols (pad_cells (row_cells row) expected_cols)"

definition expected_columns :: "str list" where
  "expected_columns = [py ''Item Description'', py ''Quantity'', py ''Unit'']"

definition table_lines_of :: "str \<Rightarrow> str list" where
  "table_lines_of markdown_text =
     (let lns = map rstrip (str_split NEWLINE markdown_text)
      in map strip (filter (\<lambda>line. startswith (strip line) [PIPE]) lns))"

definition header_of :: "str \<Rightarrow> str list" where
  "header_of row0 =
     (let header = split_row row0 3
      in if length header < 3
         then take (length header) expected_columns @ replicate (3 - length header) (py ''Unit'')
         else header)"

definition is_dash_row :: "str \<Rightarrow> bool" where
  "is_dash_row line \<longleftrightarrow> set (replace_del SPACE (replace_del PIPE line)) \<subseteq> {DASH}"

definition data_start_idx :: "str list \<Rightarrow> error + nat" where
  "data_start_idx table_lines =
     (if length table_lines > 1
      then (case index table_lines 1 of
              Inl e \<Rightarrow> Inl e
            | Inr line \<Rightarrow> if is_dash_row line then Inr 2 else Inr 1)
      else Inr 1)"

definition markdown_table_to_csv :: "str \<Rightarrow> error + DataFrame" where
  "markdown_table_to_csv markdown_text =
     (let table_lines = table_lines_of markdown_text
      in if length table_lines < 2 then Inl MalformedTableError
         else (case index table_lines 0 of
                 Inl e \<Rightarrow> Inl e
               | Inr row0 \<Rightarrow>
                   (let header = header_of row0
                    in case data_start_idx table_lines of
                         Inl e \<Rightarrow> Inl e
                       | Inr idx \<Rightarrow>
                           (let data_rows = map (\<lambda>row. split_row row (length header))
                                                (drop idx table_lines)
                            in if data_rows = [] then Inl EmptyTableError
                               else pd_DataFrame data_rows expected_columns))))"

section \<open>Helpers for stating properties\<close>

text \<open>A text made of the given lines, joined by newlines.\<close>

fun join_lines :: "str list \<Rightarrow> str" where
  "join_lines [] = []"
| "join_lines [l] = l"
| "join_lines (l # m # ls) = l @ NEWLINE # join_lines (m # ls)"

text \<open>A line is pipe-leading when its first non-whitespace character is the pipe.\<close>

definition pipe_leading :: "str \<Rightarrow> bool" where
  "pipe_leading line \<longleftrightarrow> (case dropWhile is_space line of [] \<Rightarrow> False | c # cs \<Rightarrow> c = PIPE)"

text \<open>
  The row rule as the specification words it: exactly one leading and exactly one trailing
  pipe removed (where present), the remainder split on the pipe, each piece trimmed.
\<close>

definition spec_strip_one_pipe :: "str \<Rightarrow> str" where
  "spec_strip_one_pipe s =
     (let s1 = (case s of [] \<Rightarrow> [] | c # cs \<Rightarrow> if c = PIPE then cs else c # cs)
      in if s1 \<noteq> [] \<and> last s1 = PIPE then butlast s1 else s1)"

definition spec_row_cells :: "str \<Rightarrow> str list" where
  "spec_row_cells row = map strip (str_split PIPE (spec_strip_one_pipe row))"

section \<open>Basic facts\<close>

lemma pad_cells_eq:
  "pad_cells cells n = cells @ replicate (n - length cells) (py ''N/A'')"
proof (induction cells n rule: pad_cells.induct)
  case (1 cells n)
  show ?case
  proof (cases "length cells < n")
    case True
    then have "n - length cells = Suc (n - length (cells @ [py ''N/A'']))" by simp
    with True 1 show ?thesis
      by (subst pad_cells.simps) (simp add: replicate_app_Cons_same)
  next
    case False
    then show ?thesis by (subst pad_cells.simps) simp
  qed
qed

lemma str_split_nonempty: "str_split sep s \<noteq> []"
  by (induction s) (auto split: list.splits)

lemma length_split_row: "length (split_row row n) = n"
  by (simp add: split_row_def pad_cells_eq)

section \<open>Whitespace stripping and the selection of table lines\<close>

lemma rstrip_Cons:
  "rstrip (x # xs) = (if rstrip xs = [] \<and> is_space x then [] else x # rstrip xs)"
  by (auto simp: rstrip_def dropWhile_append dropWhile_eq_Nil_conv)

lemma rstrip_Nil_iff: "rstrip s = [] \<longleftrightarrow> (\<forall>c\<in>set s. is_space c)"
  by (simp add: rstrip_def dropWhile_eq_Nil_conv)

lemma rstrip_idem: "rstrip (rstrip s) = rstrip s"
  by (simp add: rstrip_def)

lemma strip_rstrip: "strip (rstrip s) = strip s"
  by (simp add: strip_def rstrip_idem)

lemma startswith_strip: "startswith (strip l) [PIPE] \<longleftrightarrow> pipe_leading l"
proof (induction l)
  case Nil
  show ?case by (simp add: strip_def lstrip_def rstrip_def startswith_def pipe_leading_def)
next
  case (Cons x xs)
  show ?case
  proof (cases "is_space x")
    case False
    then show ?thesis
      by (auto simp: strip_def lstrip_def rstrip_Cons startswith_def pipe_leading_def)
  next
    case sp: True
    show ?thesis
    proof (cases "rstrip xs = []")
      case True
      then have "\<forall>c\<in>set xs. is_space c" by (simp add: rstrip_Nil_iff)
      then have dw: "dropWhile is_space xs = []" by (simp add: dropWhile_eq_Nil_conv)
      have "\<not> pipe_leading xs" by (simp only: pipe_leading_def dw list.case) simp
      moreover have "pipe_leading (x # xs) = pipe_leading xs"
        using sp by (simp add: pipe_leading_def)
      ultimately show ?thesis
        using True sp by (simp add: strip_def lstrip_def rstrip_Cons startswith_def)
    next
      case False
      with sp Cons show ?thesis
        by (simp add: strip_def lstrip_def rstrip_Cons pipe_leading_def)
    qed
  qed
qed

lemma pipe_leading_rstrip: "pipe_leading (rstrip l) = pipe_leading l"
  using startswith_strip [of "rstrip l"] startswith_strip [of l] by (simp add: strip_rstrip)

lemma table_lines_of_eq:
  "table_lines_of t = map strip (filter pipe_leading (str_split NEWLINE t))"
  by (simp add: table_lines_of_def filter_map comp_def strip_rstrip startswith_strip
      pipe_leading_rstrip)

lemma length_header_of: "length (header_of row0) = 3"
  by (simp add: header_of_def length_split_row)

lemma data_start_idx_eq:
  "2 \<le> length tls \<Longrightarrow> data_start_idx tls = Inr (if is_dash_row (tls ! 1) then 2 else 1)"
  by (simp add: data_start_idx_def index_def)

lemma pd_DataFrame_rows3:
  "pd_DataFrame (map (\<lambda>row. split_row row 3) ls) expected_columns =
     Inr \<lparr>columns = expected_columns, rows = map (\<lambda>row. split_row row 3) ls\<rparr>"
  by (simp add: pd_DataFrame_def list_all_iff length_split_row expected_columns_def)

lemma parse_eq:
  "markdown_table_to_csv t =
     (let tls = table_lines_of t in
      if length tls < 2 then Inl MalformedTableError
      else if drop (if is_dash_row (tls ! 1) then 2 else 1) tls = [] then Inl EmptyTableError
      else Inr \<lparr>columns = expected_columns,
                rows = map (\<lambda>row. split_row row 3) (drop (if is_dash_row (tls ! 1) then 2 else 1) tls)\<rparr>)"
  by (simp add: markdown_table_to_csv_def Let_def index_def data_start_idx_eq length_header_of
      pd_DataFrame_rows3)

lemma str_split_append:
  "str_split sep (a @ sep # b) = str_split sep a @ str_split sep b"
  by (induction a) (auto split: list.splits simp: str_split_nonempty)

lemma str_split_no_sep: "sep \<notin> set s \<Longrightarrow> str_split sep s = [s]"
  by (induction s) auto

lemma str_split_join_lines:
  "ls \<noteq> [] \<Longrightarrow> \<forall>l\<in>set ls. NEWLINE \<notin> set l \<Longrightarrow> str_split NEWLINE (join_lines ls) = ls"
  by (induction ls rule: join_lines.induct) (auto simp: str_split_append str_split_no_sep)

lemma str_split_lines_no_sep: "l \<in> set (str_split sep s) \<Longrightarrow> sep \<notin> set l"
  by (induction s arbitrary: l) (auto split: list.splits if_splits)

lemma join_lines_Cons_Cons: "join_lines ((a # l) # ls) = a # join_lines (l # ls)"
  by (cases ls) simp_all

lemma join_lines_str_split: "join_lines (str_split NEWLINE s) = s"
  by (induction s) (auto split: list.splits simp: str_split_nonempty join_lines_Cons_Cons)

section \<open>Further facts on stripping, splitting and joining\<close>

lemma set_strip_subset: "set (strip l) \<subseteq> set l"
proof -
  have "set (strip l) \<subseteq> set (rstrip l)"
    by (auto simp: strip_def lstrip_def dest: set_dropWhileD)
  also have "\<dots> \<subseteq> set l"
    by (auto simp: rstrip_def dest: set_dropWhileD)
  finally show ?thesis .
qed

lemma dropWhile_framed:
  assumes "s \<noteq> []" "hd s \<noteq> c"
  shows "dropWhile (\<lambda>x. x = c) (replicate a c @ s @ r) = s @ r"
proof -
  from assms obtain x s' where s: "s = x # s'" "x \<noteq> c" by (cases s) auto
  have "dropWhile (\<lambda>x. x = c) (replicate a c @ s @ r) = dropWhile (\<lambda>x. x = c) (s @ r)"
    by (rule dropWhile_append2) simp
  with s show ?thesis by simp
qed

lemma strip_chars_all:
  "strip_chars c (replicate a c @ replicate b c) = []"
proof -
  have d: "dropWhile (\<lambda>x. x = c) (replicate a c @ replicate b c) = []"
    unfolding dropWhile_eq_Nil_conv by (auto simp: in_set_replicate)
  show ?thesis
    unfolding strip_chars_def d by simp
qed

lemma strip_chars_framed:
  assumes "s = [] \<or> (hd s \<noteq> c \<and> last s \<noteq> c)"
  shows "strip_chars c (replicate a c @ s @ replicate b c) = s"
proof (cases "s = []")
  case True
  then show ?thesis
    using strip_chars_all [of c a b] by simp
next
  case False
  with assms have hd: "hd s \<noteq> c" and lst: "last s \<noteq> c" by auto
  have front: "dropWhile (\<lambda>x. x = c) (replicate a c @ s @ replicate b c) = s @ replicate b c"
    using False hd by (rule dropWhile_framed)
  have r: "rev (s @ replicate b c) = replicate b c @ rev s @ []"
    by simp
  have ne: "rev s \<noteq> []"
    using False by simp
  have hr: "hd (rev s) \<noteq> c"
    using False lst by (simp add: hd_rev)
  have rear: "dropWhile (\<lambda>x. x = c) (replicate b c @ rev s @ []) = rev s @ []"
    using ne hr by (rule dropWhile_framed)
  show ?thesis
    unfolding strip_chars_def front r rear by simp
qed

lemma spec_strip_one_pipe_framed:
  assumes "s = [] \<or> (hd s \<noteq> PIPE \<and> last s \<noteq> PIPE)" "a \<le> 1" "b \<le> 1"
  shows "spec_strip_one_pipe (replicate a PIPE @ s @ replicate b PIPE) = s"
proof -
  from assms(2,3) consider "a = 0 \<and> b = 0" | "a = 0 \<and> b = 1" | "a = 1 \<and> b = 0" | "a = 1 \<and> b = 1"
    by linarith
  then show ?thesis
  proof cases
    case 1
    with assms(1) show ?thesis
      by (cases s) (auto simp: spec_strip_one_pipe_def Let_def)
  next
    case 2
    with assms(1) show ?thesis
      by (cases s) (auto simp: spec_strip_one_pipe_def Let_def)
  next
    case 3
    with assms(1) show ?thesis
      by (cases s) (auto simp: spec_strip_one_pipe_def Let_def)
  next
    case 4
    with assms(1) show ?thesis
      by (cases s) (auto simp: spec_strip_one_pipe_def Let_def)
  qed
qed

lemma split_join_concat:
  "ls \<noteq> [] \<Longrightarrow> str_split NEWLINE (join_lines ls) = concat (map (str_split NEWLINE) ls)"
  by (induction ls rule: join_lines.induct) (simp_all add: str_split_append)

lemma not_pipe_leading_Nil: "\<not> pipe_leading []"
  by (simp add: pipe_leading_def)

lemma pipe_lines_join:
  "filter pipe_leading (str_split NEWLINE (join_lines ls)) =
   filter pipe_leading (concat (map (str_split NEWLINE) ls))"
  by (cases "ls = []") (simp_all add: split_join_concat not_pipe_leading_Nil)

lemma parse_cong:
  "filter pipe_leading (str_split NEWLINE a) = filter pipe_leading (str_split NEWLINE b) \<Longrightarrow>
   markdown_table_to_csv a = markdown_table_to_csv b"
  by (simp add: parse_eq table_lines_of_eq)

lemma join_pipe_lines:
  "filter pipe_leading (str_split NEWLINE (join_lines (filter pipe_leading (str_split NEWLINE t)))) =
   filter pipe_leading (str_split NEWLINE t)"
proof (cases "filter pipe_leading (str_split NEWLINE t) = []")
  case True
  then show ?thesis by (simp add: not_pipe_leading_Nil)
next
  case False
  have "\<forall>l\<in>set (filter pipe_leading (str_split NEWLINE t)). NEWLINE \<notin> set l"
    by (auto dest: str_split_lines_no_sep)
  with False have "str_split NEWLINE (join_lines (filter pipe_leading (str_split NEWLINE t))) =
      filter pipe_leading (str_split NEWLINE t)"
    by (rule str_split_join_lines)
  then show ?thesis by simp
qed

section \<open>Evaluation and error facts\<close>

lemma errors_distinct: "MalformedTableError \<noteq> EmptyTableError"
  by (simp add: MalformedTableError_def EmptyTableError_def)

lemma is_dash_row_iff: "is_dash_row l \<longleftrightarrow> set l \<subseteq> {PIPE, SPACE, DASH}"
  by (auto simp: is_dash_row_def replace_del_def)

lemmas eval_defs =
  parse_eq table_lines_of_eq pipe_leading_def is_space_def strip_def lstrip_def rstrip_def
  split_row_def row_cells_def strip_chars_def pad_cells_eq is_dash_row_def replace_del_def
  expected_columns_def Let_def

lemmas line_eval =
  table_lines_of_eq pipe_leading_def is_space_def strip_def lstrip_def rstrip_def
  is_dash_row_def replace_del_def

lemmas row_eval =
  split_row_def row_cells_def strip_chars_def pad_cells_eq

section \<open>Failure conditions\<close>

text \<open>
  C3. The parser fails with the malformed-table error exactly when fewer than two lines of
  the input have the pipe as their first non-whitespace character.
\<close>

theorem malformed_iff_fewer_than_two_pipe_lines:
  "markdown_table_to_csv t = Inl MalformedTableError \<longleftrightarrow>
     length (filter pipe_leading (str_split NEWLINE t)) < 2"
  using errors_distinct by (auto simp: parse_eq table_lines_of_eq Let_def)

theorem malformed_iff_fewer_than_two_pipe_lines_witness:
  "markdown_table_to_csv (py ''no table here'') = Inl MalformedTableError \<and>
   markdown_table_to_csv (py ''| a | b |'') = Inl MalformedTableError \<and>
   markdown_table_to_csv (py ''| a |\<newline>| b |'') \<noteq> Inl MalformedTableError"
  using malformed_iff_fewer_than_two_pipe_lines [of "py ''no table here''"]
    malformed_iff_fewer_than_two_pipe_lines [of "py ''| a | b |''"]
    malformed_iff_fewer_than_two_pipe_lines [of "py ''| a |\<newline>| b |''"]
  by (simp add: pipe_leading_def is_space_def)

text \<open>
  C9. The parser is a total function (the padding loop terminates), and on every input
  its outcome is a table, the malformed-table error or the empty-table error: neither a
  subscript out of range nor a rejection by the data frame constructor can occur.
\<close>

theorem outcome_exhaustive:
  "markdown_table_to_csv t = Inl MalformedTableError \<or>
   markdown_table_to_csv t = Inl EmptyTableError \<or>
   (\<exists>df. markdown_table_to_csv t = Inr df)"
  by (simp add: parse_eq Let_def)

section \<open>Shape of the result\<close>

text \<open>
  C5. Whenever the parser succeeds, every row of the table has exactly three cells and the
  columns are the fixed schema, whatever the header line of the input says.
\<close>

theorem success_three_cells_fixed_columns:
  assumes "markdown_table_to_csv t = Inr df"
  shows "(\<forall>r\<in>set (rows df). length r = 3) \<and>
         columns df = [py ''Item Description'', py ''Quantity'', py ''Unit'']"
  using assms
  by (auto simp: parse_eq Let_def length_split_row expected_columns_def split: if_splits)

theorem success_three_cells_fixed_columns_witness:
  "markdown_table_to_csv (py ''| Name | Count |\<newline>|---|---|\<newline>| Beam | 5 |'') =
     Inr \<lparr>columns = expected_columns, rows = [[py ''Beam'', py ''5'', py ''N/A'']]\<rparr> \<and>
   map length (rows \<lparr>columns = expected_columns, rows = [[py ''Beam'', py ''5'', py ''N/A'']]\<rparr>) =
     [3] \<and>
   columns \<lparr>columns = expected_columns, rows = [[py ''Beam'', py ''5'', py ''N/A'']]\<rparr> =
     [py ''Item Description'', py ''Quantity'', py ''Unit'']"
proof -
  have h: "markdown_table_to_csv (py ''| Name | Count |\<newline>|---|---|\<newline>| Beam | 5 |'') =
     Inr \<lparr>columns = expected_columns, rows = [[py ''Beam'', py ''5'', py ''N/A'']]\<rparr>"
    by (simp add: eval_defs)
  show ?thesis
    using h success_three_cells_fixed_columns [OF h] by simp
qed

text \<open>
  C4. On an input with at least two pipe-leading lines, the parser fails with the
  empty-table error exactly when no table line remains from the data start index on, that
  is exactly when the table lines are a header and a separator row and nothing else; in
  every other case it returns a table.
\<close>

theorem empty_iff_header_and_separator_only:
  assumes "2 \<le> length (filter pipe_leading (str_split NEWLINE t))"
  shows "(markdown_table_to_csv t = Inl EmptyTableError \<longleftrightarrow>
            (\<exists>k. data_start_idx (table_lines_of t) = Inr k \<and> drop k (table_lines_of t) = [])) \<and>
         (markdown_table_to_csv t = Inl EmptyTableError \<longleftrightarrow>
            length (table_lines_of t) = 2 \<and> is_dash_row (table_lines_of t ! 1)) \<and>
         (markdown_table_to_csv t \<noteq> Inl EmptyTableError \<longrightarrow>
            (\<exists>df. markdown_table_to_csv t = Inr df))"
proof -
  have len: "2 \<le> length (table_lines_of t)"
    using assms by (simp add: table_lines_of_eq)
  then have idx: "data_start_idx (table_lines_of t) =
      Inr (if is_dash_row (table_lines_of t ! 1) then 2 else 1)"
    by (rule data_start_idx_eq)
  from len have p: "markdown_table_to_csv t =
     (if drop (if is_dash_row (table_lines_of t ! 1) then 2 else 1) (table_lines_of t) = []
      then Inl EmptyTableError
      else Inr \<lparr>columns = expected_columns,
                rows = map (\<lambda>row. split_row row 3)
                  (drop (if is_dash_row (table_lines_of t ! 1) then 2 else 1) (table_lines_of t))\<rparr>)"
    by (simp add: parse_eq Let_def)
  show ?thesis
    using len by (auto simp: p idx)
qed

theorem empty_iff_header_and_separator_only_witness:
  "markdown_table_to_csv (py ''| Item | Qty |\<newline>|---|---|'') = Inl EmptyTableError \<and>
   (\<exists>df. markdown_table_to_csv (py ''| Item | Qty |\<newline>|---|---|\<newline>| Beam | 5 |'') = Inr df)"
proof -
  let ?A = "py ''| Item | Qty |\<newline>|---|---|''"
  let ?B = "py ''| Item | Qty |\<newline>|---|---|\<newline>| Beam | 5 |''"
  have a: "2 \<le> length (filter pipe_leading (str_split NEWLINE ?A))"
    by (simp add: pipe_leading_def is_space_def)
  have a': "length (table_lines_of ?A) = 2 \<and> is_dash_row (table_lines_of ?A ! 1)"
    by (simp add: line_eval)
  have b: "2 \<le> length (filter pipe_leading (str_split NEWLINE ?B))"
    by (simp add: pipe_leading_def is_space_def)
  have b': "\<not> (length (table_lines_of ?B) = 2 \<and> is_dash_row (table_lines_of ?B ! 1))"
    by (simp add: line_eval)
  from empty_iff_header_and_separator_only [OF a] a'
  have ra: "markdown_table_to_csv ?A = Inl EmptyTableError" by blast
  from empty_iff_header_and_separator_only [OF b] b'
  have rb: "\<exists>df. markdown_table_to_csv ?B = Inr df" by blast
  from ra rb show ?thesis by blast
qed

section \<open>Rows of the table\<close>

text \<open>
  C1. A text made of a pipe-leading header line, a pipe-leading separator line that holds
  only pipes, spaces and dashes, and N >= 1 pipe-leading data lines is parsed into a table
  of exactly N rows, each of three cells, under the fixed column names.
\<close>

theorem well_formed_table_rows:
  assumes lines: "\<forall>l\<in>set (h # s # ds). NEWLINE \<notin> set l \<and> pipe_leading l"
    and sep: "set (strip s) \<subseteq> {PIPE, SPACE, DASH}"
    and data: "ds \<noteq> []"
  shows "\<exists>df. markdown_table_to_csv (join_lines (h # s # ds)) = Inr df \<and>
           length (rows df) = length ds \<and>
           (\<forall>r\<in>set (rows df). length r = 3) \<and>
           columns df = [py ''Item Description'', py ''Quantity'', py ''Unit'']"
proof -
  define inp where "inp = join_lines (h # s # ds)"
  have split: "str_split NEWLINE inp = h # s # ds"
    unfolding inp_def using lines by (intro str_split_join_lines) auto
  have "filter pipe_leading (h # s # ds) = h # s # ds"
    using lines by (intro filter_True) auto
  with split have tls: "table_lines_of inp = map strip (h # s # ds)"
    by (simp only: table_lines_of_eq)
  have dash: "is_dash_row (strip s)"
    using sep by (simp add: is_dash_row_iff)
  have "\<exists>df. markdown_table_to_csv inp = Inr df \<and>
           length (rows df) = length ds \<and>
           (\<forall>r\<in>set (rows df). length r = 3) \<and>
           columns df = [py ''Item Description'', py ''Quantity'', py ''Unit'']"
    using data dash by (simp add: parse_eq tls length_split_row expected_columns_def)
  then show ?thesis
    by (simp only: inp_def)
qed

theorem well_formed_table_rows_witness:
  "\<exists>df. markdown_table_to_csv
           (join_lines [py ''| Item Description | Quantity | Unit |'', py ''|---|---|---|'',
                        py ''| Concrete Beam | 5 | m |'', py ''| M12 Bolts | 10 | pcs |'']) = Inr df \<and>
        length (rows df) = length [py ''| Concrete Beam | 5 | m |'', py ''| M12 Bolts | 10 | pcs |''] \<and>
        (\<forall>r\<in>set (rows df). length r = 3) \<and>
        columns df = [py ''Item Description'', py ''Quantity'', py ''Unit'']"
proof -
  have l: "\<forall>l\<in>set (py ''| Item Description | Quantity | Unit |'' # py ''|---|---|---|'' #
                      [py ''| Concrete Beam | 5 | m |'', py ''| M12 Bolts | 10 | pcs |'']).
             NEWLINE \<notin> set l \<and> pipe_leading l"
    by (simp add: pipe_leading_def is_space_def)
  have s: "set (strip (py ''|---|---|---|'')) \<subseteq> {PIPE, SPACE, DASH}"
    by (simp add: strip_def lstrip_def rstrip_def is_space_def)
  have d: "[py ''| Concrete Beam | 5 | m |'', py ''| M12 Bolts | 10 | pcs |''] \<noteq> []"
    by simp
  show ?thesis
    by (rule well_formed_table_rows [OF l s d])
qed

text \<open>
  C2, as the specification states it, compares the cells the parser computes with the rule
  "remove exactly one leading and one trailing pipe, split on the pipe, trim each piece".
  The two differ on a line with doubled pipes at its ends: the parser removes all of them.
\<close>

theorem one_pipe_rule_counterexample:
  "row_cells (py ''||A|B|C||'') = [py ''A'', py ''B'', py ''C''] \<and>
   spec_row_cells (py ''||A|B|C||'') = [[], py ''A'', py ''B'', py ''C'', []] \<and>
   row_cells (py ''||A|B|C||'') \<noteq> spec_row_cells (py ''||A|B|C||'')"
  by (simp add: row_cells_def spec_row_cells_def spec_strip_one_pipe_def strip_chars_def
      strip_def lstrip_def rstrip_def is_space_def)

text \<open>
  C2, amended. For a line made of a pipes, a text s that neither begins nor ends with a
  pipe, and b pipes, the cells are those of s split on the pipe and trimmed: every leading
  and trailing pipe is removed. When the line has at most one pipe at each end this is the
  one-pipe rule of the specification.
\<close>

theorem row_cells_strips_all_pipes:
  assumes "s = [] \<or> (hd s \<noteq> PIPE \<and> last s \<noteq> PIPE)"
  shows "row_cells (replicate a PIPE @ s @ replicate b PIPE) = map strip (str_split PIPE s) \<and>
         (a \<le> 1 \<and> b \<le> 1 \<longrightarrow>
            row_cells (replicate a PIPE @ s @ replicate b PIPE) =
            spec_row_cells (replicate a PIPE @ s @ replicate b PIPE))"
  using strip_chars_framed [OF assms, of a b] spec_strip_one_pipe_framed [OF assms, of a b]
  by (simp add: row_cells_def spec_row_cells_def)

theorem row_cells_strips_all_pipes_witness:
  "row_cells (py ''||A|B||'') = [py ''A'', py ''B''] \<and>
   row_cells (py ''| A | B |'') = [py ''A'', py ''B''] \<and>
   row_cells (py ''| A | B |'') = spec_row_cells (py ''| A | B |'')"
proof -
  have h1: "py ''A|B'' = [] \<or> (hd (py ''A|B'') \<noteq> PIPE \<and> last (py ''A|B'') \<noteq> PIPE)"
    by simp
  have h2: "py '' A | B '' = [] \<or> (hd (py '' A | B '') \<noteq> PIPE \<and> last (py '' A | B '') \<noteq> PIPE)"
    by simp
  from row_cells_strips_all_pipes [OF h1, of "Suc (Suc 0)" "Suc (Suc 0)"]
  have "row_cells (replicate (Suc (Suc 0)) PIPE @ py ''A|B'' @ replicate (Suc (Suc 0)) PIPE) =
      map strip (str_split PIPE (py ''A|B''))" by blast
  then have a: "row_cells (py ''||A|B||'') = [py ''A'', py ''B'']"
    by (simp add: strip_def lstrip_def rstrip_def is_space_def)
  have le: "(1::nat) \<le> 1 \<and> (1::nat) \<le> 1"
    by simp
  from row_cells_strips_all_pipes [OF h2, of 1 1] le
  have x: "row_cells (replicate 1 PIPE @ py '' A | B '' @ replicate 1 PIPE) =
      map strip (str_split PIPE (py '' A | B ''))"
    and y: "row_cells (replicate 1 PIPE @ py '' A | B '' @ replicate 1 PIPE) =
      spec_row_cells (replicate 1 PIPE @ py '' A | B '' @ replicate 1 PIPE)"
    by blast+
  from x have b: "row_cells (py ''| A | B |'') = [py ''A'', py ''B'']"
    by (simp add: strip_def lstrip_def rstrip_def is_space_def)
  from y have c: "row_cells (py ''| A | B |'') = spec_row_cells (py ''| A | B |'')"
    by simp
  from a b c show ?thesis by blast
qed

text \<open>
  C6. On an input with at least two pipe-leading lines, the data start index is 2 when the
  second table line, with every pipe and space removed, consists of dashes only, and 1
  otherwise; in the latter case the second table line is the first data row.
\<close>

theorem data_start_after_separator:
  assumes "2 \<le> length (filter pipe_leading (str_split NEWLINE t))"
  shows "data_start_idx (table_lines_of t) =
           Inr (if list_all (\<lambda>c. c = DASH)
                     (filter (\<lambda>c. c \<noteq> PIPE \<and> c \<noteq> SPACE) (table_lines_of t ! 1))
                then 2 else 1) \<and>
         (list_all (\<lambda>c. c = DASH) (filter (\<lambda>c. c \<noteq> PIPE \<and> c \<noteq> SPACE) (table_lines_of t ! 1))
            \<longrightarrow> (\<forall>df. markdown_table_to_csv t = Inr df \<longrightarrow>
                   rows df = map (\<lambda>row. split_row row 3) (drop 2 (table_lines_of t)))) \<and>
         (\<not> list_all (\<lambda>c. c = DASH) (filter (\<lambda>c. c \<noteq> PIPE \<and> c \<noteq> SPACE) (table_lines_of t ! 1))
            \<longrightarrow> (\<exists>df. markdown_table_to_csv t = Inr df \<and>
                   rows df = split_row (table_lines_of t ! 1) 3 #
                             map (\<lambda>row. split_row row 3) (drop 2 (table_lines_of t))))"
proof -
  have len: "2 \<le> length (table_lines_of t)"
    using assms by (simp add: table_lines_of_eq)
  have test: "list_all (\<lambda>c. c = DASH) (filter (\<lambda>c. c \<noteq> PIPE \<and> c \<noteq> SPACE) l) = is_dash_row l" for l
    by (auto simp: is_dash_row_def replace_del_def list_all_iff)
  from len have d1: "drop 1 (table_lines_of t) =
      table_lines_of t ! 1 # drop 2 (table_lines_of t)"
    using Cons_nth_drop_Suc [of 1 "table_lines_of t"] by (simp add: numeral_2_eq_2)
  show ?thesis
    using len d1 by (auto simp: test data_start_idx_eq parse_eq Let_def split: if_splits)
qed

theorem data_start_after_separator_witness:
  "data_start_idx (table_lines_of (py ''| Item | Qty | Unit |\<newline>|---|---|---|\<newline>| A | 1 | pcs |'')) = Inr 2 \<and>
   data_start_idx (table_lines_of (py ''| Item | Qty | Unit |\<newline>| A | 1 | pcs |'')) = Inr 1 \<and>
   (\<exists>df. markdown_table_to_csv (py ''| Item | Qty | Unit |\<newline>| A | 1 | pcs |'') = Inr df \<and>
         rows df = [[py ''A'', py ''1'', py ''pcs'']])"
proof -
  let ?A = "py ''| Item | Qty | Unit |\<newline>|---|---|---|\<newline>| A | 1 | pcs |''"
  let ?B = "py ''| Item | Qty | Unit |\<newline>| A | 1 | pcs |''"
  have a: "2 \<le> length (filter pipe_leading (str_split NEWLINE ?A))"
    by (simp add: pipe_leading_def is_space_def)
  have b: "2 \<le> length (filter pipe_leading (str_split NEWLINE ?B))"
    by (simp add: pipe_leading_def is_space_def)
  have a': "list_all (\<lambda>c. c = DASH)
      (filter (\<lambda>c. c \<noteq> PIPE \<and> c \<noteq> SPACE) (table_lines_of ?A ! 1))"
    by (simp add: line_eval)
  have b': "\<not> list_all (\<lambda>c. c = DASH)
      (filter (\<lambda>c. c \<noteq> PIPE \<and> c \<noteq> SPACE) (table_lines_of ?B ! 1))"
    by (simp add: line_eval)
  from data_start_after_separator [OF a] a'
  have ra: "data_start_idx (table_lines_of ?A) = Inr 2" by simp
  from data_start_after_separator [OF b] b'
  have rb: "data_start_idx (table_lines_of ?B) = Inr 1"
    and "\<exists>df. markdown_table_to_csv ?B = Inr df \<and>
           rows df = split_row (table_lines_of ?B ! 1) 3 #
                     map (\<lambda>row. split_row row 3) (drop 2 (table_lines_of ?B))"
    by simp_all
  moreover have "split_row (table_lines_of ?B ! 1) 3 #
      map (\<lambda>row. split_row row 3) (drop 2 (table_lines_of ?B)) = [[py ''A'', py ''1'', py ''pcs'']]"
    by (simp add: line_eval row_eval)
  ultimately have rc: "\<exists>df. markdown_table_to_csv ?B = Inr df \<and>
      rows df = [[py ''A'', py ''1'', py ''pcs'']]"
    by (simp only:)
  from ra rb rc show ?thesis by blast
qed

text \<open>
  C7. A row of fewer than three cells is padded with the cell \<open>N/A\<close> up to three cells,
  a row of more than three cells is cut to its first three; \<open>| Item X | 3 |\<close> gives
  the cells \<open>Item X\<close>, \<open>3\<close>, \<open>N/A\<close>. Every row of a returned table is computed in
  this way from a table line.
\<close>

theorem split_row_pads_and_truncates:
  "split_row row 3 =
     (if length (row_cells row) < 3
      then row_cells row @ replicate (3 - length (row_cells row)) (py ''N/A'')
      else take 3 (row_cells row)) \<and>
   split_row (py ''| Item X | 3 |'') 3 = [py ''Item X'', py ''3'', py ''N/A''] \<and>
   (markdown_table_to_csv t = Inr df \<longrightarrow>
      (\<exists>k. rows df = map (\<lambda>line. split_row line 3) (drop k (table_lines_of t))))"
proof (intro conjI impI)
  show "split_row row 3 =
     (if length (row_cells row) < 3
      then row_cells row @ replicate (3 - length (row_cells row)) (py ''N/A'')
      else take 3 (row_cells row))"
    by (simp add: split_row_def pad_cells_eq)
next
  show "split_row (py ''| Item X | 3 |'') 3 = [py ''Item X'', py ''3'', py ''N/A'']"
    by (simp add: split_row_def pad_cells_eq row_cells_def strip_chars_def strip_def lstrip_def
        rstrip_def is_space_def)
next
  assume "markdown_table_to_csv t = Inr df"
  then have "rows df = map (\<lambda>line. split_row line 3)
      (drop (if is_dash_row (table_lines_of t ! 1) then 2 else 1) (table_lines_of t))"
    by (auto simp: parse_eq Let_def split: if_splits)
  then show "\<exists>k. rows df = map (\<lambda>line. split_row line 3) (drop k (table_lines_of t))" ..
qed

theorem split_row_pads_and_truncates_witness:
  "split_row (py ''| a | b | c | d |'') 3 = [py ''a'', py ''b'', py ''c''] \<and>
   (\<exists>k. rows \<lparr>columns = expected_columns, rows = [[py ''x'', py ''N/A'', py ''N/A'']]\<rparr> =
        map (\<lambda>line. split_row line 3) (drop k (table_lines_of (py ''| h |\<newline>| x |''))))"
proof -
  let ?D = "\<lparr>columns = expected_columns, rows = [[py ''x'', py ''N/A'', py ''N/A'']]\<rparr>"
  have p: "markdown_table_to_csv (py ''| h |\<newline>| x |'') = Inr ?D"
    by (simp add: eval_defs numeral_2_eq_2)
  note T = split_row_pads_and_truncates [of "py ''| a | b | c | d |''" "py ''| h |\<newline>| x |''" ?D]
  from T have "split_row (py ''| a | b | c | d |'') 3 =
     (if length (row_cells (py ''| a | b | c | d |'')) < 3
      then row_cells (py ''| a | b | c | d |'') @
           replicate (3 - length (row_cells (py ''| a | b | c | d |''))) (py ''N/A'')
      else take 3 (row_cells (py ''| a | b | c | d |'')))"
    by blast
  moreover have "row_cells (py ''| a | b | c | d |'') = [py ''a'', py ''b'', py ''c'', py ''d'']"
    by (simp add: row_cells_def strip_chars_def strip_def lstrip_def rstrip_def is_space_def)
  ultimately have a: "split_row (py ''| a | b | c | d |'') 3 = [py ''a'', py ''b'', py ''c'']"
    by simp
  from T p have b: "\<exists>k. rows ?D =
        map (\<lambda>line. split_row line 3) (drop k (table_lines_of (py ''| h |\<newline>| x |'')))"
    by blast
  from a b show ?thesis by blast
qed

text \<open>
  C8. Lines that are not pipe-leading do not affect the result: removing one of them
  between other lines, or all of them, leaves the result unchanged; and the rows of a
  returned table are computed, in order, from a suffix of the pipe-leading lines of the
  input.
\<close>

theorem noise_lines_dropped_order_kept:
  "(\<not> pipe_leading n \<and> NEWLINE \<notin> set n \<longrightarrow>
      markdown_table_to_csv (join_lines (xs @ n # ys)) = markdown_table_to_csv (join_lines (xs @ ys))) \<and>
   markdown_table_to_csv (join_lines (filter pipe_leading (str_split NEWLINE t))) =
     markdown_table_to_csv t \<and>
   (markdown_table_to_csv t = Inr df \<longrightarrow>
      (\<exists>k. rows df = map (\<lambda>l. split_row (strip l) 3)
                        (drop k (filter pipe_leading (str_split NEWLINE t)))))"
proof (intro conjI impI)
  assume n: "\<not> pipe_leading n \<and> NEWLINE \<notin> set n"
  then have "str_split NEWLINE n = [n]" by (simp add: str_split_no_sep)
  with n have "filter pipe_leading (concat (map (str_split NEWLINE) (xs @ n # ys))) =
      filter pipe_leading (concat (map (str_split NEWLINE) (xs @ ys)))"
    by simp
  then have "filter pipe_leading (str_split NEWLINE (join_lines (xs @ n # ys))) =
      filter pipe_leading (str_split NEWLINE (join_lines (xs @ ys)))"
    by (simp only: pipe_lines_join)
  then show "markdown_table_to_csv (join_lines (xs @ n # ys)) =
      markdown_table_to_csv (join_lines (xs @ ys))"
    by (rule parse_cong)
next
  show "markdown_table_to_csv (join_lines (filter pipe_leading (str_split NEWLINE t))) =
     markdown_table_to_csv t"
    using join_pipe_lines by (rule parse_cong)
next
  assume "markdown_table_to_csv t = Inr df"
  then have "rows df = map (\<lambda>row. split_row row 3)
      (drop (if is_dash_row (table_lines_of t ! 1) then 2 else 1) (table_lines_of t))"
    by (auto simp: parse_eq Let_def split: if_splits)
  then have "rows df = map (\<lambda>l. split_row (strip l) 3)
      (drop (if is_dash_row (table_lines_of t ! 1) then 2 else 1)
         (filter pipe_leading (str_split NEWLINE t)))"
    by (simp add: table_lines_of_eq drop_map comp_def)
  then show "\<exists>k. rows df = map (\<lambda>l. split_row (strip l) 3)
                        (drop k (filter pipe_leading (str_split NEWLINE t)))" ..
qed

theorem noise_lines_dropped_order_kept_witness:
  "markdown_table_to_csv
     (join_lines ([py ''| h |''] @ py ''Here is the table:'' # [py ''| x |''])) =
   markdown_table_to_csv (join_lines ([py ''| h |''] @ [py ''| x |''])) \<and>
   markdown_table_to_csv (py ''| h |\<newline>| x |'') =
     Inr \<lparr>columns = expected_columns, rows = [[py ''x'', py ''N/A'', py ''N/A'']]\<rparr>"
proof -
  have n: "\<not> pipe_leading (py ''Here is the table:'') \<and> NEWLINE \<notin> set (py ''Here is the table:'')"
    by (simp add: pipe_leading_def is_space_def)
  from noise_lines_dropped_order_kept
    [of "py ''Here is the table:''" "[py ''| h |'']" "[py ''| x |'']"] n
  have a: "markdown_table_to_csv
     (join_lines ([py ''| h |''] @ py ''Here is the table:'' # [py ''| x |''])) =
   markdown_table_to_csv (join_lines ([py ''| h |''] @ [py ''| x |'']))"
    by blast
  have b: "markdown_table_to_csv (py ''| h |\<newline>| x |'') =
     Inr \<lparr>columns = expected_columns, rows = [[py ''x'', py ''N/A'', py ''N/A'']]\<rparr>"
    by (simp add: eval_defs numeral_2_eq_2)
  from a b show ?thesis by blast
qed

text \<open>
  C10. When the second pipe-leading line consists of pipes and spaces only, it counts as a
  separator row: the data start index is 2, the line is not a data row, and when there is
  no third pipe-leading line the parser fails with the empty-table error.
\<close>

theorem blank_second_line_is_separator:
  assumes len: "2 \<le> length (filter pipe_leading (str_split NEWLINE t))"
    and blank: "set (filter pipe_leading (str_split NEWLINE t) ! 1) \<subseteq> {PIPE, SPACE}"
  shows "data_start_idx (table_lines_of t) = Inr 2 \<and>
         markdown_table_to_csv t =
           (if length (filter pipe_leading (str_split NEWLINE t)) = 2 then Inl EmptyTableError
            else Inr \<lparr>columns = expected_columns,
                      rows = map (\<lambda>l. split_row (strip l) 3)
                               (drop 2 (filter pipe_leading (str_split NEWLINE t)))\<rparr>)"
proof -
  let ?pl = "filter pipe_leading (str_split NEWLINE t)"
  have tls: "table_lines_of t = map strip ?pl" by (rule table_lines_of_eq)
  have "set (strip (?pl ! 1)) \<subseteq> {PIPE, SPACE}"
    using set_strip_subset [of "?pl ! 1"] blank by blast
  then have dash: "is_dash_row (map strip ?pl ! 1)"
    using len by (auto simp: is_dash_row_iff)
  show ?thesis
    using len dash
    by (auto simp: tls data_start_idx_eq parse_eq Let_def drop_map simp del: table_lines_of_eq)
qed

theorem blank_second_line_is_separator_witness:
  "data_start_idx (table_lines_of (py ''| h |\<newline>||'')) = Inr 2 \<and>
   markdown_table_to_csv (py ''| h |\<newline>||'') = Inl EmptyTableError \<and>
   markdown_table_to_csv (py ''| h |\<newline>| |\<newline>| x |'') =
     Inr \<lparr>columns = expected_columns, rows = [[py ''x'', py ''N/A'', py ''N/A'']]\<rparr>"
proof -
  let ?A = "py ''| h |\<newline>||''"
  let ?B = "py ''| h |\<newline>| |\<newline>| x |''"
  have a1: "2 \<le> length (filter pipe_leading (str_split NEWLINE ?A))"
    by (simp add: pipe_leading_def is_space_def)
  have a2: "set (filter pipe_leading (str_split NEWLINE ?A) ! 1) \<subseteq> {PIPE, SPACE}"
    by (simp add: pipe_leading_def is_space_def)
  have a3: "length (filter pipe_leading (str_split NEWLINE ?A)) = 2"
    by (simp add: pipe_leading_def is_space_def)
  have b1: "2 \<le> length (filter pipe_leading (str_split NEWLINE ?B))"
    by (simp add: pipe_leading_def is_space_def)
  have b2: "set (filter pipe_leading (str_split NEWLINE ?B) ! 1) \<subseteq> {PIPE, SPACE}"
    by (simp add: pipe_leading_def is_space_def)
  have b3: "length (filter pipe_leading (str_split NEWLINE ?B)) \<noteq> 2"
    by (simp add: pipe_leading_def is_space_def)
  have b4: "map (\<lambda>l. split_row (strip l) 3) (drop 2 (filter pipe_leading (str_split NEWLINE ?B))) =
      [[py ''x'', py ''N/A'', py ''N/A'']]"
    by (simp add: pipe_leading_def is_space_def strip_def lstrip_def rstrip_def row_eval numeral_2_eq_2)
  from blank_second_line_is_separator [OF a1 a2]
  have ra: "data_start_idx (table_lines_of ?A) = Inr 2"
    and rb: "markdown_table_to_csv ?A = Inl EmptyTableError"
    by (simp_all only: a3 refl if_True simp_thms)
  from blank_second_line_is_separator [OF b1 b2]
  have rc: "markdown_table_to_csv ?B =
     Inr \<lparr>columns = expected_columns, rows = [[py ''x'', py ''N/A'', py ''N/A'']]\<rparr>"
    by (simp only: b3 b4 if_False)
  from ra rb rc show ?thesis by blast
qed

end
